theory Spec2Isabelle
  imports Main "HOL-Library.Sublist"
begin

section \<open>The auth module of react-native-firebase (src/lib/modules/auth/index.js)\<close>

text \<open>
  The class \<open>Auth\<close> keeps a current-user snapshot (\<open>_user\<close>), a flag telling whether
  a result has ever arrived (\<open>_authResult\<close>) and a language code. It listens to three
  native events on the process-wide \<open>SharedEventEmitter\<close> and republishes them on
  derived topics. Everything the class does is a write to one of its three fields or a
  call to the emitter, so the model is a record of the fields and of the emitter, passed
  through every operation.

  Application listeners are JavaScript functions whose bodies are outside the module.
  A listener is a natural number (its identity as a function object), and calling it is
  recorded in a trace; listeners are taken to return normally and not to re-enter the
  module while they run. Logging (\<open>getLogger(this).info\<close>, \<open>console.warn\<close>) and the
  calls that only tell the native side something (\<open>addAuthStateListener\<close>,
  \<open>addIdTokenListener\<close>, \<open>setLanguageCode\<close>) write nothing the module reads back and
  are left out.
\<close>

subsection \<open>Payloads\<close>

text \<open>
  The Flow types of \<open>./types\<close> are not part of the source at hand. A raw user carries at
  least its unique identifier; the rest of the payload is never read by index.js.
\<close>

record NativeUser =
  uid :: string
  providerData :: "string list"

record AdditionalUserInfo =
  isNewUser :: bool
  username :: "string option"

text \<open>\<open>NativeUserCredential\<close>: the fields \<open>user\<close> and \<open>additionalUserInfo\<close> of the raw credential.\<close>

record NativeUserCredential =
  native_user :: NativeUser
  native_additionalUserInfo :: "AdditionalUserInfo option"

text \<open>
  Modelled from the spec: the class \<open>User\<close> (\<open>./User\<close>) is missing from the source. The
  session snapshot is the wrapper that \<open>new User(this, user)\<close> builds around the raw
  user.
\<close>

datatype User = User (nativeUser: NativeUser)

text \<open>
  Modelled from the spec: the accessor \<open>uid\<close> of \<open>User\<close> (\<open>./User\<close>) is missing from
  the source. The snapshot's unique identifier is the raw user's.
\<close>

definition user_uid :: "User \<Rightarrow> string" where
  "user_uid u = uid (nativeUser u)"

text \<open>\<open>UserCredential\<close>: what \<open>_setUserCredential\<close> returns.\<close>

record UserCredential =
  additionalUserInfo :: "AdditionalUserInfo option"
  user :: User

text \<open>\<open>type AuthState = { user?: NativeUser }\<close>\<close>

record AuthState =
  state_user :: "NativeUser option"

text \<open>
  The event of \<open>phone_auth_state_changed\<close>: the handler reads \<open>event.requestKey\<close>,
  \<open>event.type\<close> and \<open>event.state\<close>. The state is handed on unread.
\<close>

type_synonym PhoneState = "(string \<times> string) list"

record PhoneEvent =
  requestKey :: string
  event_type :: string
  event_state :: PhoneState

text \<open>What travels on the emitter: a snapshot (or null) on the derived topics, a phase state on the phone topics.\<close>

datatype Payload = Snapshot "User option" | PhaseState PhoneState

text \<open>A rejected provider call carries the provider's code and message.\<close>

record ProviderError =
  error_code :: string
  error_message :: string

text \<open>A settled promise: \<open>Inl\<close> is the rejection, \<open>Inr\<close> the value it resolved with.\<close>

type_synonym 'a Promise = "ProviderError + 'a"

datatype JsError = Error string

datatype ConfirmationResult = ConfirmationResult string

datatype PhoneAuthListener = PhoneAuthListener string "nat option"

subsection \<open>State\<close>

text \<open>
  \<open>auth_user\<close>, \<open>authResult\<close> and \<open>languageCode\<close> are the fields \<open>_user\<close>,
  \<open>_authResult\<close> and \<open>_languageCode\<close> of the instance. \<open>listeners\<close> is the registry of
  \<open>SharedEventEmitter\<close> (topic to listeners, in subscription order), \<open>emitted\<close> the trace
  of its \<open>emit\<close> calls and \<open>invoked\<close> the trace of listener calls, oldest first.
\<close>

record Auth =
  auth_user :: "User option"
  authResult :: bool
  languageCode :: "string option"
  listeners :: "string \<Rightarrow> nat list"
  emitted :: "(string \<times> Payload) list"
  invoked :: "(nat \<times> Payload) list"

subsection \<open>The event emitter\<close>

text \<open>A listener function is called with a payload: the call is appended to the trace.\<close>

definition call :: "nat \<Rightarrow> Payload \<Rightarrow> Auth \<Rightarrow> Auth" where
  "call listener payload s = s\<lparr>invoked := invoked s @ [(listener, payload)]\<rparr>"

text \<open>
  Modelled from the spec: \<open>SharedEventEmitter.addListener\<close> (\<open>../../utils/events\<close>) is
  missing from the source. Section 4.1: several listeners per topic are allowed, kept in
  subscription order; no topic needs registering first.
\<close>

definition addListener :: "string \<Rightarrow> nat \<Rightarrow> Auth \<Rightarrow> Auth" where
  "addListener topic listener s =
     s\<lparr>listeners := (listeners s)(topic := listeners s topic @ [listener])\<rparr>"

text \<open>
  Modelled from the spec: \<open>SharedEventEmitter.emit\<close> (\<open>../../utils/events\<close>) is missing
  from the source. Section 4.1: publishing calls the listeners of the topic in
  subscription order and runs them to completion before it returns; publishing to a topic
  without listeners does nothing.
\<close>

definition emit :: "string \<Rightarrow> Payload \<Rightarrow> Auth \<Rightarrow> Auth" where
  "emit topic payload s =
     foldl (\<lambda>s' listener. call listener payload s')
       (s\<lparr>emitted := emitted s @ [(topic, payload)]\<rparr>) (listeners s topic)"

text \<open>
  Modelled from the spec: \<open>SharedEventEmitter.removeListener\<close> (\<open>../../utils/events\<close>)
  is missing from the source. Section 4.1 asks that removing be idempotent, without
  effect and without error once the listener is gone. The emitter is handed the topic and
  the listener function and nothing else, so it removes what it finds under that function
  on that topic; removing every such entry is the reading under which a repeated call
  changes nothing.
\<close>

definition removeListener :: "string \<Rightarrow> nat \<Rightarrow> Auth \<Rightarrow> Auth" where
  "removeListener topic listener s =
     s\<lparr>listeners := (listeners s)(topic := filter (\<lambda>l. l \<noteq> listener) (listeners s topic))\<rparr>"

subsection \<open>The constructor and the two setters\<close>

text \<open>
  \<open>getAppEventName(this, name)\<close> is defined in \<open>../../utils/events\<close>, which is missing
  from the source; the functions below take it as the parameter \<open>getAppEventName\<close>, the
  map from an event name to the topic of this instance's app.

  \<open>constructor\<close>: \<open>APP_LANGUAGE\<close> is the table of the native module, \<open>name\<close> is
  \<open>app._name\<close>. In \<open>a || b\<close> an absent or empty \<open>a\<close> gives \<open>b\<close>. The three listeners the
  constructor registers on the native events are the functions \<open>auth_state_changed\<close>,
  \<open>phone_auth_state_changed\<close> and \<open>auth_id_token_changed\<close> below; \<open>listeners\<close> holds the
  listeners of the application.
\<close>

definition constructor :: "(string \<rightharpoonup> string) \<Rightarrow> string \<Rightarrow> Auth" where
  "constructor APP_LANGUAGE name =
     \<lparr>auth_user = None,
      authResult = False,
      languageCode =
        (case APP_LANGUAGE name of
           None \<Rightarrow> APP_LANGUAGE ''[DEFAULT]''
         | Some l \<Rightarrow> if l = [] then APP_LANGUAGE ''[DEFAULT]'' else Some l),
      listeners = (\<lambda>topic. []),
      emitted = [],
      invoked = []\<rparr>"

text \<open>\<open>_setUser(user)\<close>\<close>

definition setUser :: "(string \<Rightarrow> string) \<Rightarrow> NativeUser option \<Rightarrow> Auth \<Rightarrow> User option \<times> Auth" where
  "setUser getAppEventName u s =
     (let s1 = s\<lparr>authResult := True\<rparr>;
          s2 = s1\<lparr>auth_user := (case u of Some n \<Rightarrow> Some (User n) | None \<Rightarrow> None)\<rparr>;
          s3 = emit (getAppEventName ''onUserChanged'') (Snapshot (auth_user s2)) s2
      in (auth_user s3, s3))"

text \<open>\<open>_setUserCredential(userCredential)\<close>\<close>

definition setUserCredential ::
  "(string \<Rightarrow> string) \<Rightarrow> NativeUserCredential \<Rightarrow> Auth \<Rightarrow> UserCredential \<times> Auth" where
  "setUserCredential getAppEventName userCredential s =
     (let u = User (native_user userCredential);
          s1 = s\<lparr>authResult := True\<rparr>;
          s2 = s1\<lparr>auth_user := Some u\<rparr>;
          s3 = emit (getAppEventName ''onUserChanged'') (Snapshot (auth_user s2)) s2
      in (\<lparr>additionalUserInfo = native_additionalUserInfo userCredential, user = u\<rparr>, s3))"

text \<open>\<open>get currentUser()\<close>\<close>

definition currentUser :: "Auth \<Rightarrow> User option" where
  "currentUser s = auth_user s"

subsection \<open>The listeners of the native events\<close>

text \<open>The listener of \<open>auth_state_changed\<close>.\<close>

definition auth_state_changed :: "(string \<Rightarrow> string) \<Rightarrow> AuthState \<Rightarrow> Auth \<Rightarrow> Auth" where
  "auth_state_changed getAppEventName state s =
     (let s1 = snd (setUser getAppEventName (state_user state) s)
      in emit (getAppEventName ''onAuthStateChanged'') (Snapshot (auth_user s1)) s1)"

text \<open>The listener of \<open>phone_auth_state_changed\<close>, and the topic it builds.\<close>

definition eventKey :: "PhoneEvent \<Rightarrow> string" where
  "eventKey event = ''phone:auth:'' @ requestKey event @ '':'' @ event_type event"

definition phone_auth_state_changed :: "PhoneEvent \<Rightarrow> Auth \<Rightarrow> Auth" where
  "phone_auth_state_changed event s = emit (eventKey event) (PhaseState (event_state event)) s"

text \<open>The listener of \<open>auth_id_token_changed\<close>.\<close>

definition auth_id_token_changed :: "(string \<Rightarrow> string) \<Rightarrow> AuthState \<Rightarrow> Auth \<Rightarrow> Auth" where
  "auth_id_token_changed getAppEventName auth s =
     (let s1 = snd (setUser getAppEventName (state_user auth) s)
      in emit (getAppEventName ''onIdTokenChanged'') (Snapshot (auth_user s1)) s1)"

text \<open>
  A notification on one of the two session channels, and a sequence of them delivered in
  order.
\<close>

datatype Notification = StateChanged AuthState | IdTokenChanged AuthState

fun raw_payload :: "Notification \<Rightarrow> AuthState" where
  "raw_payload (StateChanged state) = state"
| "raw_payload (IdTokenChanged auth) = auth"

fun notify :: "(string \<Rightarrow> string) \<Rightarrow> Notification \<Rightarrow> Auth \<Rightarrow> Auth" where
  "notify getAppEventName (StateChanged state) s = auth_state_changed getAppEventName state s"
| "notify getAppEventName (IdTokenChanged auth) s = auth_id_token_changed getAppEventName auth s"

definition notify_all :: "(string \<Rightarrow> string) \<Rightarrow> Notification list \<Rightarrow> Auth \<Rightarrow> Auth" where
  "notify_all getAppEventName ns s = foldl (\<lambda>s' n. notify getAppEventName n s') s ns"

subsection \<open>Registering listeners\<close>

text \<open>
  Each registration returns the closure that removes the listener again. The closure
  holds the topic and the listener function, and is a state transformer here.
\<close>

definition unsubscribe_onAuthStateChanged :: "(string \<Rightarrow> string) \<Rightarrow> nat \<Rightarrow> Auth \<Rightarrow> Auth" where
  "unsubscribe_onAuthStateChanged getAppEventName listener s =
     removeListener (getAppEventName ''onAuthStateChanged'') listener s"

definition onAuthStateChanged :: "(string \<Rightarrow> string) \<Rightarrow> nat \<Rightarrow> Auth \<Rightarrow> (Auth \<Rightarrow> Auth) \<times> Auth" where
  "onAuthStateChanged getAppEventName listener s =
     (let s1 = addListener (getAppEventName ''onAuthStateChanged'') listener s;
          s2 = (if authResult s1 then call listener (Snapshot (auth_user s1)) s1 else s1)
      in (unsubscribe_onAuthStateChanged getAppEventName listener, s2))"

definition unsubscribe_onIdTokenChanged :: "(string \<Rightarrow> string) \<Rightarrow> nat \<Rightarrow> Auth \<Rightarrow> Auth" where
  "unsubscribe_onIdTokenChanged getAppEventName listener s =
     removeListener (getAppEventName ''onIdTokenChanged'') listener s"

definition onIdTokenChanged :: "(string \<Rightarrow> string) \<Rightarrow> nat \<Rightarrow> Auth \<Rightarrow> (Auth \<Rightarrow> Auth) \<times> Auth" where
  "onIdTokenChanged getAppEventName listener s =
     (let s1 = addListener (getAppEventName ''onIdTokenChanged'') listener s;
          s2 = (if authResult s1 then call listener (Snapshot (auth_user s1)) s1 else s1)
      in (unsubscribe_onIdTokenChanged getAppEventName listener, s2))"

definition unsubscribe_onUserChanged :: "(string \<Rightarrow> string) \<Rightarrow> nat \<Rightarrow> Auth \<Rightarrow> Auth" where
  "unsubscribe_onUserChanged getAppEventName listener s =
     removeListener (getAppEventName ''onUserChanged'') listener s"

definition onUserChanged :: "(string \<Rightarrow> string) \<Rightarrow> nat \<Rightarrow> Auth \<Rightarrow> (Auth \<Rightarrow> Auth) \<times> Auth" where
  "onUserChanged getAppEventName listener s =
     (let s1 = addListener (getAppEventName ''onUserChanged'') listener s;
          s2 = (if authResult s1 then call listener (Snapshot (auth_user s1)) s1 else s1)
      in (unsubscribe_onUserChanged getAppEventName listener, s2))"

subsection \<open>Operations backed by the provider\<close>

text \<open>
  Every operation calls the native module and continues with \<open>.then(f)\<close>. The native
  call is outside the module: its settled promise is the argument \<open>native\<close>, and the
  state argument is the state of the module when the promise settles. The arguments that
  only travel to the native call (email, password, token, credential) do not appear.
  \<open>p.then(f)\<close> with a rejected \<open>p\<close> does not run \<open>f\<close> and rejects with the same reason.
\<close>

definition then_promise :: "'a Promise \<Rightarrow> ('a \<Rightarrow> Auth \<Rightarrow> 'b \<times> Auth) \<Rightarrow> Auth \<Rightarrow> 'b Promise \<times> Auth" where
  "then_promise p onFulfilled s =
     (case p of
        Inl reason \<Rightarrow> (Inl reason, s)
      | Inr v \<Rightarrow> (let (r, s') = onFulfilled v s in (Inr r, s')))"

definition signOut :: "(string \<Rightarrow> string) \<Rightarrow> unit Promise \<Rightarrow> Auth \<Rightarrow> unit Promise \<times> Auth" where
  "signOut getAppEventName native s =
     then_promise native (\<lambda>_ s'. ((), snd (setUser getAppEventName None s'))) s"

definition signInAnonymously ::
  "(string \<Rightarrow> string) \<Rightarrow> NativeUser option Promise \<Rightarrow> Auth \<Rightarrow> User option Promise \<times> Auth" where
  "signInAnonymously getAppEventName native s =
     then_promise native (\<lambda>user. setUser getAppEventName user) s"

definition signInAnonymouslyAndRetrieveData ::
  "(string \<Rightarrow> string) \<Rightarrow> NativeUserCredential Promise \<Rightarrow> Auth \<Rightarrow> UserCredential Promise \<times> Auth" where
  "signInAnonymouslyAndRetrieveData getAppEventName native s =
     then_promise native (\<lambda>userCredential. setUserCredential getAppEventName userCredential) s"

definition createUserWithEmailAndPassword ::
  "(string \<Rightarrow> string) \<Rightarrow> NativeUser option Promise \<Rightarrow> Auth \<Rightarrow> User option Promise \<times> Auth" where
  "createUserWithEmailAndPassword getAppEventName native s =
     then_promise native (\<lambda>user. setUser getAppEventName user) s"

definition createUserAndRetrieveDataWithEmailAndPassword ::
  "(string \<Rightarrow> string) \<Rightarrow> NativeUserCredential Promise \<Rightarrow> Auth \<Rightarrow> UserCredential Promise \<times> Auth" where
  "createUserAndRetrieveDataWithEmailAndPassword getAppEventName native s =
     then_promise native (\<lambda>userCredential. setUserCredential getAppEventName userCredential) s"

definition signInWithEmailAndPassword ::
  "(string \<Rightarrow> string) \<Rightarrow> NativeUser option Promise \<Rightarrow> Auth \<Rightarrow> User option Promise \<times> Auth" where
  "signInWithEmailAndPassword getAppEventName native s =
     then_promise native (\<lambda>user. setUser getAppEventName user) s"

definition signInAndRetrieveDataWithEmailAndPassword ::
  "(string \<Rightarrow> string) \<Rightarrow> NativeUserCredential Promise \<Rightarrow> Auth \<Rightarrow> UserCredential Promise \<times> Auth" where
  "signInAndRetrieveDataWithEmailAndPassword getAppEventName native s =
     then_promise native (\<lambda>userCredential. setUserCredential getAppEventName userCredential) s"

definition signInWithCustomToken ::
  "(string \<Rightarrow> string) \<Rightarrow> NativeUser option Promise \<Rightarrow> Auth \<Rightarrow> User option Promise \<times> Auth" where
  "signInWithCustomToken getAppEventName native s =
     then_promise native (\<lambda>user. setUser getAppEventName user) s"

definition signInAndRetrieveDataWithCustomToken ::
  "(string \<Rightarrow> string) \<Rightarrow> NativeUserCredential Promise \<Rightarrow> Auth \<Rightarrow> UserCredential Promise \<times> Auth" where
  "signInAndRetrieveDataWithCustomToken getAppEventName native s =
     then_promise native (\<lambda>userCredential. setUserCredential getAppEventName userCredential) s"

definition signInWithCredential ::
  "(string \<Rightarrow> string) \<Rightarrow> NativeUser option Promise \<Rightarrow> Auth \<Rightarrow> User option Promise \<times> Auth" where
  "signInWithCredential getAppEventName native s =
     then_promise native (\<lambda>user. setUser getAppEventName user) s"

definition signInAndRetrieveDataWithCredential ::
  "(string \<Rightarrow> string) \<Rightarrow> NativeUserCredential Promise \<Rightarrow> Auth \<Rightarrow> UserCredential Promise \<times> Auth" where
  "signInAndRetrieveDataWithCredential getAppEventName native s =
     then_promise native (\<lambda>userCredential. setUserCredential getAppEventName userCredential) s"

text \<open>\<open>signInWithPhoneNumber\<close>: the native result is reduced to its \<open>verificationId\<close>.\<close>

definition signInWithPhoneNumber :: "string Promise \<Rightarrow> Auth \<Rightarrow> ConfirmationResult Promise \<times> Auth" where
  "signInWithPhoneNumber native s =
     then_promise native (\<lambda>verificationId s'. (ConfirmationResult verificationId, s')) s"

text \<open>
  \<open>verifyPhoneNumber\<close> builds a \<open>PhoneAuthListener\<close> and writes no field of the instance.
  What the listener object does afterwards is the subject of the section on phone
  verification below.
\<close>

definition verifyPhoneNumber :: "string \<Rightarrow> nat option \<Rightarrow> Auth \<Rightarrow> PhoneAuthListener \<times> Auth" where
  "verifyPhoneNumber phoneNumber autoVerifyTimeout s =
     (PhoneAuthListener phoneNumber autoVerifyTimeout, s)"

text \<open>The operations that hand the native promise back as it is.\<close>

type_synonym ActionCodeInfo = "(string \<times> string) list"

definition sendPasswordResetEmail :: "unit Promise \<Rightarrow> Auth \<Rightarrow> unit Promise \<times> Auth" where
  "sendPasswordResetEmail native s = (native, s)"

definition confirmPasswordReset :: "unit Promise \<Rightarrow> Auth \<Rightarrow> unit Promise \<times> Auth" where
  "confirmPasswordReset native s = (native, s)"

definition applyActionCode :: "unit Promise \<Rightarrow> Auth \<Rightarrow> unit Promise \<times> Auth" where
  "applyActionCode native s = (native, s)"

definition checkActionCode :: "ActionCodeInfo Promise \<Rightarrow> Auth \<Rightarrow> ActionCodeInfo Promise \<times> Auth" where
  "checkActionCode native s = (native, s)"

definition fetchProvidersForEmail :: "string list Promise \<Rightarrow> Auth \<Rightarrow> string list Promise \<times> Auth" where
  "fetchProvidersForEmail native s = (native, s)"

definition verifyPasswordResetCode :: "string Promise \<Rightarrow> Auth \<Rightarrow> string Promise \<times> Auth" where
  "verifyPasswordResetCode native s = (native, s)"

text \<open>\<open>set languageCode(code)\<close>\<close>

definition set_languageCode :: "string \<Rightarrow> Auth \<Rightarrow> Auth" where
  "set_languageCode code s = s\<lparr>languageCode := Some code\<rparr>"

subsection \<open>Known unsupported methods\<close>

text \<open>
  Each throws \<open>new Error(INTERNALS.STRINGS.ERROR_UNSUPPORTED_MODULE_METHOD('auth', name))\<close>.
  The table of messages (\<open>../../utils/internals\<close>) is missing from the source and is the
  parameter \<open>ERROR_UNSUPPORTED_MODULE_METHOD\<close>. The throw is the \<open>Inl\<close> result.
\<close>

definition getRedirectResult :: "(string \<Rightarrow> string \<Rightarrow> string) \<Rightarrow> Auth \<Rightarrow> (JsError + unit) \<times> Auth" where
  "getRedirectResult ERROR_UNSUPPORTED_MODULE_METHOD s =
     (Inl (Error (ERROR_UNSUPPORTED_MODULE_METHOD ''auth'' ''getRedirectResult'')), s)"

definition setPersistence :: "(string \<Rightarrow> string \<Rightarrow> string) \<Rightarrow> Auth \<Rightarrow> (JsError + unit) \<times> Auth" where
  "setPersistence ERROR_UNSUPPORTED_MODULE_METHOD s =
     (Inl (Error (ERROR_UNSUPPORTED_MODULE_METHOD ''auth'' ''setPersistence'')), s)"

definition signInWithPopup :: "(string \<Rightarrow> string \<Rightarrow> string) \<Rightarrow> Auth \<Rightarrow> (JsError + unit) \<times> Auth" where
  "signInWithPopup ERROR_UNSUPPORTED_MODULE_METHOD s =
     (Inl (Error (ERROR_UNSUPPORTED_MODULE_METHOD ''auth'' ''signInWithPopup'')), s)"

definition signInWithRedirect :: "(string \<Rightarrow> string \<Rightarrow> string) \<Rightarrow> Auth \<Rightarrow> (JsError + unit) \<times> Auth" where
  "signInWithRedirect ERROR_UNSUPPORTED_MODULE_METHOD s =
     (Inl (Error (ERROR_UNSUPPORTED_MODULE_METHOD ''auth'' ''signInWithRedirect'')), s)"

definition useDeviceLanguage :: "(string \<Rightarrow> string \<Rightarrow> string) \<Rightarrow> Auth \<Rightarrow> (JsError + unit) \<times> Auth" where
  "useDeviceLanguage ERROR_UNSUPPORTED_MODULE_METHOD s =
     (Inl (Error (ERROR_UNSUPPORTED_MODULE_METHOD ''auth'' ''useDeviceLanguage'')), s)"

subsection \<open>Everything that can happen to the module\<close>

text \<open>
  One action is the delivery of a native event, a call of a public method (with the
  settled native promise where there is one), a call of a closure that a registration
  returned, or a call of one of the two setters from another class of the module (they
  are handed \<open>this\<close>). The two getters read a field and are not actions.
\<close>

datatype Action =
    Notify Notification
  | PhoneAuthStateChanged PhoneEvent
  | OnAuthStateChanged nat
  | OnIdTokenChanged nat
  | OnUserChanged nat
  | UnsubscribeAuthStateChanged nat
  | UnsubscribeIdTokenChanged nat
  | UnsubscribeUserChanged nat
  | SignOut "unit Promise"
  | SignInAnonymously "NativeUser option Promise"
  | SignInAnonymouslyAndRetrieveData "NativeUserCredential Promise"
  | CreateUserWithEmailAndPassword "NativeUser option Promise"
  | CreateUserAndRetrieveDataWithEmailAndPassword "NativeUserCredential Promise"
  | SignInWithEmailAndPassword "NativeUser option Promise"
  | SignInAndRetrieveDataWithEmailAndPassword "NativeUserCredential Promise"
  | SignInWithCustomToken "NativeUser option Promise"
  | SignInAndRetrieveDataWithCustomToken "NativeUserCredential Promise"
  | SignInWithCredential "NativeUser option Promise"
  | SignInAndRetrieveDataWithCredential "NativeUserCredential Promise"
  | SignInWithPhoneNumber "string Promise"
  | VerifyPhoneNumber string "nat option"
  | SendPasswordResetEmail "unit Promise"
  | ConfirmPasswordReset "unit Promise"
  | ApplyActionCode "unit Promise"
  | CheckActionCode "ActionCodeInfo Promise"
  | FetchProvidersForEmail "string list Promise"
  | VerifyPasswordResetCode "string Promise"
  | SetLanguageCode string
  | GetRedirectResult
  | SetPersistence
  | SignInWithPopup
  | SignInWithRedirect
  | UseDeviceLanguage
  | SetUser "NativeUser option"
  | SetUserCredential NativeUserCredential

fun exec :: "(string \<Rightarrow> string) \<Rightarrow> (string \<Rightarrow> string \<Rightarrow> string) \<Rightarrow> Action \<Rightarrow> Auth \<Rightarrow> Auth" where
  "exec g m (Notify n) s = notify g n s"
| "exec g m (PhoneAuthStateChanged event) s = phone_auth_state_changed event s"
| "exec g m (OnAuthStateChanged l) s = snd (onAuthStateChanged g l s)"
| "exec g m (OnIdTokenChanged l) s = snd (onIdTokenChanged g l s)"
| "exec g m (OnUserChanged l) s = snd (onUserChanged g l s)"
| "exec g m (UnsubscribeAuthStateChanged l) s = unsubscribe_onAuthStateChanged g l s"
| "exec g m (UnsubscribeIdTokenChanged l) s = unsubscribe_onIdTokenChanged g l s"
| "exec g m (UnsubscribeUserChanged l) s = unsubscribe_onUserChanged g l s"
| "exec g m (SignOut p) s = snd (signOut g p s)"
| "exec g m (SignInAnonymously p) s = snd (signInAnonymously g p s)"
| "exec g m (SignInAnonymouslyAndRetrieveData p) s = snd (signInAnonymouslyAndRetrieveData g p s)"
| "exec g m (CreateUserWithEmailAndPassword p) s = snd (createUserWithEmailAndPassword g p s)"
| "exec g m (CreateUserAndRetrieveDataWithEmailAndPassword p) s =
     snd (createUserAndRetrieveDataWithEmailAndPassword g p s)"
| "exec g m (SignInWithEmailAndPassword p) s = snd (signInWithEmailAndPassword g p s)"
| "exec g m (SignInAndRetrieveDataWithEmailAndPassword p) s =
     snd (signInAndRetrieveDataWithEmailAndPassword g p s)"
| "exec g m (SignInWithCustomToken p) s = snd (signInWithCustomToken g p s)"
| "exec g m (SignInAndRetrieveDataWithCustomToken p) s =
     snd (signInAndRetrieveDataWithCustomToken g p s)"
| "exec g m (SignInWithCredential p) s = snd (signInWithCredential g p s)"
| "exec g m (SignInAndRetrieveDataWithCredential p) s =
     snd (signInAndRetrieveDataWithCredential g p s)"
| "exec g m (SignInWithPhoneNumber p) s = snd (signInWithPhoneNumber p s)"
| "exec g m (VerifyPhoneNumber phoneNumber autoVerifyTimeout) s =
     snd (verifyPhoneNumber phoneNumber autoVerifyTimeout s)"
| "exec g m (SendPasswordResetEmail p) s = snd (sendPasswordResetEmail p s)"
| "exec g m (ConfirmPasswordReset p) s = snd (confirmPasswordReset p s)"
| "exec g m (ApplyActionCode p) s = snd (applyActionCode p s)"
| "exec g m (CheckActionCode p) s = snd (checkActionCode p s)"
| "exec g m (FetchProvidersForEmail p) s = snd (fetchProvidersForEmail p s)"
| "exec g m (VerifyPasswordResetCode p) s = snd (verifyPasswordResetCode p s)"
| "exec g m (SetLanguageCode c) s = set_languageCode c s"
| "exec g m GetRedirectResult s = snd (getRedirectResult m s)"
| "exec g m SetPersistence s = snd (setPersistence m s)"
| "exec g m SignInWithPopup s = snd (signInWithPopup m s)"
| "exec g m SignInWithRedirect s = snd (signInWithRedirect m s)"
| "exec g m UseDeviceLanguage s = snd (useDeviceLanguage m s)"
| "exec g m (SetUser u) s = snd (setUser g u s)"
| "exec g m (SetUserCredential c) s = snd (setUserCredential g c s)"

definition run :: "(string \<Rightarrow> string) \<Rightarrow> (string \<Rightarrow> string \<Rightarrow> string) \<Rightarrow> Action list \<Rightarrow> Auth \<Rightarrow> Auth" where
  "run g m acts s = foldl (\<lambda>s' a. exec g m a s') s acts"

subsection \<open>Phone verification requests\<close>

text \<open>
  Modelled from the spec: the class \<open>PhoneAuthListener\<close> (\<open>./phone/PhoneAuthListener\<close>)
  is missing from the source; index.js only builds one in \<open>verifyPhoneNumber\<close> and
  republishes the native phase events for it. The spec's coordinator (sections 3 and 4.4)
  listens, for one request key, to the private topic of each of the four phases
  (section 6: \<open>codeSent\<close>, \<open>autoVerifyTimeout\<close>, \<open>autoVerified\<close>, \<open>error\<close>) and hands
  the phases on to the request's listeners. Code-sent and timeout are not terminal and
  occur at most once each; auto-verified and error are terminal; once a terminal phase
  fires, the subscriptions of the request are torn down and no further transition is
  accepted.
\<close>

text \<open>
  Modelled from the spec: the phase discriminator of \<open>PhoneAuthListener\<close>, missing from
  the source. Section 6 lists the four phases.
\<close>

datatype Phase = CodeSent | AutoVerifyTimeout | AutoVerified | VerificationError

text \<open>
  Modelled from the spec: the names of the phases on the external channel
  (\<open>PhoneAuthListener\<close> is missing from the source), as section 6 writes them.
\<close>

fun phase_name :: "Phase \<Rightarrow> string" where
  "phase_name CodeSent = ''codeSent''"
| "phase_name AutoVerifyTimeout = ''autoVerifyTimeout''"
| "phase_name AutoVerified = ''autoVerified''"
| "phase_name VerificationError = ''error''"

text \<open>
  Modelled from the spec: which phases end a request (\<open>PhoneAuthListener\<close> is missing
  from the source). Section 3: auto-verified and error are terminal, code-sent and
  timeout are not.
\<close>

fun terminal :: "Phase \<Rightarrow> bool" where
  "terminal CodeSent = False"
| "terminal AutoVerifyTimeout = False"
| "terminal AutoVerified = True"
| "terminal VerificationError = True"

text \<open>
  Modelled from the spec: the state of one verification request (\<open>PhoneAuthListener\<close> is
  missing from the source). \<open>subscribed\<close> lists the phases whose private topic the
  request still listens to, and \<open>delivered\<close> the notifications handed to the request's
  listeners, oldest first.
\<close>

record Verification =
  verification_key :: string
  subscribed :: "Phase list"
  delivered :: "(Phase \<times> Payload) list"

text \<open>
  Modelled from the spec: the request once the provider has issued its key
  (\<open>PhoneAuthListener\<close> is missing from the source). It listens to all four phases and
  has delivered nothing.
\<close>

definition start_verification :: "string \<Rightarrow> Verification" where
  "start_verification key =
     \<lparr>verification_key = key,
      subscribed = [CodeSent, AutoVerifyTimeout, AutoVerified, VerificationError],
      delivered = []\<rparr>"

text \<open>
  Modelled from the spec: the private topic of a phase of a request (\<open>PhoneAuthListener\<close>
  is missing from the source). It is the topic index.js publishes that phase on
  (\<open>eventKey\<close>).
\<close>

definition private_topic :: "string \<Rightarrow> Phase \<Rightarrow> string" where
  "private_topic key p =
     eventKey \<lparr>requestKey = key, event_type = phase_name p, event_state = []\<rparr>"

text \<open>
  Modelled from the spec: what a request does with one publication on the emitter
  (\<open>PhoneAuthListener\<close> is missing from the source). If the publication is on the
  private topic of a phase the request still listens to, the phase is delivered; a phase
  that is not terminal is dropped from the subscriptions (it occurs at most once), a
  terminal one tears all of them down (sections 3 and 4.4).
\<close>

definition receive :: "Verification \<Rightarrow> string \<times> Payload \<Rightarrow> Verification" where
  "receive v e =
     (case filter (\<lambda>p. private_topic (verification_key v) p = fst e) (subscribed v) of
        [] \<Rightarrow> v
      | p # _ \<Rightarrow>
          v\<lparr>delivered := delivered v @ [(p, snd e)],
            subscribed := (if terminal p then [] else removeAll p (subscribed v))\<rparr>)"

text \<open>
  Modelled from the spec: a request receiving the publications of a trace in order
  (\<open>PhoneAuthListener\<close> is missing from the source; section 4.1: listeners run within
  each publication).
\<close>

definition observe :: "Verification \<Rightarrow> (string \<times> Payload) list \<Rightarrow> Verification" where
  "observe v trace = foldl receive v trace"

text \<open>The invariant of a request that the proof below carries along a trace.\<close>

definition verification_inv :: "Verification \<Rightarrow> bool" where
  "verification_inv v \<longleftrightarrow>
     (\<forall>p \<in> set (subscribed v). p \<notin> fst ` set (delivered v)) \<and>
     (subscribed v \<noteq> [] \<longrightarrow> filter terminal (map fst (delivered v)) = []) \<and>
     distinct (map fst (delivered v)) \<and>
     filter terminal (butlast (map fst (delivered v))) = []"

subsection \<open>The topic as the specification writes it, and instances of the parameters\<close>

text \<open>
  The specification derives the private topic of a request as
  \<open>"phone-auth:" + requestKey + ":" + phase\<close>. This definition follows its words, to be
  compared with \<open>eventKey\<close>, which follows the code.
\<close>

definition spec_private_topic :: "string \<Rightarrow> string \<Rightarrow> string" where
  "spec_private_topic key phase = ''phone-auth:'' @ key @ '':'' @ phase"

text \<open>
  The theorems hold for every \<open>getAppEventName\<close> and every table of messages. The
  closed examples need one of each: an event name prefixed with the app's name, and a
  message naming the namespace and the method.
\<close>

definition app_event_name :: "string \<Rightarrow> string \<Rightarrow> string" where
  "app_event_name app name = app @ ''-'' @ name"

definition unsupported_message :: "string \<Rightarrow> string \<Rightarrow> string" where
  "unsupported_message namespace method = namespace @ ''.'' @ method @ '' is unsupported''"

section \<open>Basic facts about the operations\<close>

lemma foldl_call:
  "foldl (\<lambda>s' listener. call listener payload s') s ls =
     s\<lparr>invoked := invoked s @ map (\<lambda>l. (l, payload)) ls\<rparr>"
  by (induction ls arbitrary: s) (simp_all add: call_def)

lemma emit_eq:
  "emit topic payload s =
     s\<lparr>emitted := emitted s @ [(topic, payload)],
       invoked := invoked s @ map (\<lambda>l. (l, payload)) (listeners s topic)\<rparr>"
  by (simp add: emit_def foldl_call)

lemma setUser_eq:
  "setUser g u s =
     (map_option User u,
      s\<lparr>authResult := True, auth_user := map_option User u,
        emitted := emitted s @ [(g ''onUserChanged'', Snapshot (map_option User u))],
        invoked := invoked s @
          map (\<lambda>l. (l, Snapshot (map_option User u))) (listeners s (g ''onUserChanged''))\<rparr>)"
  by (cases u) (simp_all add: setUser_def emit_eq Let_def)

lemma setUserCredential_eq:
  "setUserCredential g c s =
     (\<lparr>additionalUserInfo = native_additionalUserInfo c, user = User (native_user c)\<rparr>,
      s\<lparr>authResult := True, auth_user := Some (User (native_user c)),
        emitted := emitted s @ [(g ''onUserChanged'', Snapshot (Some (User (native_user c))))],
        invoked := invoked s @
          map (\<lambda>l. (l, Snapshot (Some (User (native_user c))))) (listeners s (g ''onUserChanged''))\<rparr>)"
  by (simp add: setUserCredential_def emit_eq Let_def)

lemma then_promise_Inl: "then_promise (Inl e) f s = (Inl e, s)"
  by (simp add: then_promise_def)

lemma then_promise_Inr: "then_promise (Inr v) f s = (Inr (fst (f v s)), snd (f v s))"
  by (simp add: then_promise_def split: prod.split)

lemmas provider_defs =
  signOut_def signInAnonymously_def signInAnonymouslyAndRetrieveData_def
  createUserWithEmailAndPassword_def createUserAndRetrieveDataWithEmailAndPassword_def
  signInWithEmailAndPassword_def signInAndRetrieveDataWithEmailAndPassword_def
  signInWithCustomToken_def signInAndRetrieveDataWithCustomToken_def
  signInWithCredential_def signInAndRetrieveDataWithCredential_def
  signInWithPhoneNumber_def

lemmas passive_defs =
  verifyPhoneNumber_def sendPasswordResetEmail_def confirmPasswordReset_def
  applyActionCode_def checkActionCode_def fetchProvidersForEmail_def
  verifyPasswordResetCode_def set_languageCode_def
  getRedirectResult_def setPersistence_def signInWithPopup_def signInWithRedirect_def
  useDeviceLanguage_def

lemmas register_defs =
  onAuthStateChanged_def onIdTokenChanged_def onUserChanged_def
  unsubscribe_onAuthStateChanged_def unsubscribe_onIdTokenChanged_def
  unsubscribe_onUserChanged_def addListener_def removeListener_def call_def

lemmas notify_defs = auth_state_changed_def auth_id_token_changed_def

lemma notify_user: "auth_user (notify g n s) = map_option User (state_user (raw_payload n))"
  by (cases n) (simp_all add: notify_defs setUser_eq emit_eq)

lemma notify_authResult: "authResult (notify g n s)"
  by (cases n) (simp_all add: notify_defs setUser_eq emit_eq)

lemma phone_emitted:
  "emitted (phone_auth_state_changed event s) =
     emitted s @ [(''phone:auth:'' @ requestKey event @ '':'' @ event_type event,
                   PhaseState (event_state event))]"
  by (simp add: phone_auth_state_changed_def emit_eq eventKey_def)

lemma phone_invoked:
  "invoked (phone_auth_state_changed event s) =
     invoked s @ map (\<lambda>l. (l, PhaseState (event_state event)))
       (listeners s (''phone:auth:'' @ requestKey event @ '':'' @ event_type event))"
  by (simp add: phone_auth_state_changed_def emit_eq eventKey_def)

lemma phone_frame:
  "auth_user (phone_auth_state_changed event s) = auth_user s"
  "authResult (phone_auth_state_changed event s) = authResult s"
  "languageCode (phone_auth_state_changed event s) = languageCode s"
  "listeners (phone_auth_state_changed event s) = listeners s"
  by (simp_all add: phone_auth_state_changed_def emit_eq)

lemma eventKey_prefix: "prefix ''phone:auth:'' (eventKey event)"
  by (simp add: eventKey_def)

lemma drop_old: "ys = xs @ zs \<Longrightarrow> drop (length xs) ys = zs"
  by simp

subsection \<open>The flag only rises\<close>

lemma exec_authResult_mono: "authResult s \<Longrightarrow> authResult (exec g m a s)"
proof (cases a)
  case (Notify n)
  then show ?thesis by (simp add: notify_authResult)
qed (auto simp: phone_auth_state_changed_def emit_eq register_defs provider_defs passive_defs
       then_promise_def setUser_eq setUserCredential_eq Let_def split: sum.splits)

lemma run_authResult_mono: "authResult s \<Longrightarrow> authResult (run g m acts s)"
  unfolding run_def by (induction acts arbitrary: s) (simp_all add: exec_authResult_mono)

subsection \<open>Before the first result, only phone events reach a listener\<close>

lemma exec_listeners_phone:
  assumes "\<not> prefix ''phone:auth:'' (g ''onAuthStateChanged'')"
    and "\<not> prefix ''phone:auth:'' (g ''onIdTokenChanged'')"
    and "\<not> prefix ''phone:auth:'' (g ''onUserChanged'')"
    and "prefix ''phone:auth:'' t"
  shows "listeners (exec g m a s) t = listeners s t"
proof (cases a)
  case (Notify n)
  then show ?thesis by (cases n) (simp_all add: notify_defs setUser_eq emit_eq)
qed (use assms in \<open>auto simp: phone_auth_state_changed_def emit_eq register_defs provider_defs
       passive_defs then_promise_def setUser_eq setUserCredential_eq Let_def split: sum.splits\<close>)

lemma exec_quiet:
  assumes "\<not> authResult (exec g m a s)"
    and "\<forall>t. prefix ''phone:auth:'' t \<longrightarrow> l \<notin> set (listeners s t)"
  shows "\<exists>news. invoked (exec g m a s) = invoked s @ news \<and> l \<notin> fst ` set news"
proof (cases a)
  case (Notify n)
  then show ?thesis using assms(1) by (simp add: notify_authResult)
next
  case (PhoneAuthStateChanged event)
  then show ?thesis using assms(2) eventKey_prefix[of event]
    by (auto simp: phone_auth_state_changed_def emit_eq)
qed (use assms(1) in \<open>auto simp: register_defs provider_defs
       passive_defs then_promise_def setUser_eq setUserCredential_eq Let_def split: sum.splits\<close>)

lemma run_quiet:
  assumes "\<not> authResult (run g m acts s)"
    and "\<not> prefix ''phone:auth:'' (g ''onAuthStateChanged'')"
    and "\<not> prefix ''phone:auth:'' (g ''onIdTokenChanged'')"
    and "\<not> prefix ''phone:auth:'' (g ''onUserChanged'')"
    and "\<forall>t. prefix ''phone:auth:'' t \<longrightarrow> l \<notin> set (listeners s t)"
  shows "\<exists>news. invoked (run g m acts s) = invoked s @ news \<and> l \<notin> fst ` set news"
  using assms
proof (induction acts arbitrary: s)
  case Nil
  then show ?case by (simp add: run_def)
next
  case (Cons a acts)
  have r: "run g m (a # acts) s = run g m acts (exec g m a s)" by (simp add: run_def)
  have nf: "\<not> authResult (exec g m a s)"
    using Cons.prems(1) run_authResult_mono[of "exec g m a s" g m acts] by (auto simp: r)
  obtain n1 where n1: "invoked (exec g m a s) = invoked s @ n1" "l \<notin> fst ` set n1"
    using exec_quiet[OF nf Cons.prems(5)] by blast
  have l': "\<forall>t. prefix ''phone:auth:'' t \<longrightarrow> l \<notin> set (listeners (exec g m a s) t)"
    using Cons.prems(5) exec_listeners_phone[OF Cons.prems(2,3,4)] by simp
  obtain n2 where n2: "invoked (run g m acts (exec g m a s)) = invoked (exec g m a s) @ n2"
      "l \<notin> fst ` set n2"
    using Cons.IH[OF _ Cons.prems(2,3,4) l'] Cons.prems(1) by (auto simp: r)
  show ?case using n1 n2 by (auto simp: r)
qed

lemma register_invoked:
  assumes "reg \<in> {onAuthStateChanged, onIdTokenChanged, onUserChanged}"
  shows "invoked (snd (reg g l s)) =
           invoked s @ (if authResult s then [(l, Snapshot (auth_user s))] else [])"
    and "authResult (snd (reg g l s)) = authResult s"
    and "auth_user (snd (reg g l s)) = auth_user s"
    and "emitted (snd (reg g l s)) = emitted s"
  using assms by (auto simp: register_defs Let_def split: if_splits)

lemma register_listeners_phone:
  assumes "reg \<in> {onAuthStateChanged, onIdTokenChanged, onUserChanged}"
    and "\<not> prefix ''phone:auth:'' (g ''onAuthStateChanged'')"
    and "\<not> prefix ''phone:auth:'' (g ''onIdTokenChanged'')"
    and "\<not> prefix ''phone:auth:'' (g ''onUserChanged'')"
    and "prefix ''phone:auth:'' t"
  shows "listeners (snd (reg g l s)) t = listeners s t"
  using assms by (auto simp: register_defs Let_def split: if_splits)

subsection \<open>Splitting a topic at its last colon\<close>

lemma takeWhile_upto:
  "c \<notin> set xs \<Longrightarrow> takeWhile (\<lambda>z. z \<noteq> c) (xs @ c # ys) = xs"
  by (induction xs) auto

lemma split_at_last:
  assumes "a @ c # x = b @ c # y" and "c \<notin> set x" and "c \<notin> set y"
  shows "a = b \<and> x = y"
proof -
  have "rev (a @ c # x) = rev (b @ c # y)" using assms(1) by (rule arg_cong)
  then have e: "rev x @ c # rev a = rev y @ c # rev b" by simp
  have "takeWhile (\<lambda>z. z \<noteq> c) (rev x @ c # rev a) = rev x"
    using assms(2) by (intro takeWhile_upto) simp
  moreover have "takeWhile (\<lambda>z. z \<noteq> c) (rev y @ c # rev b) = rev y"
    using assms(3) by (intro takeWhile_upto) simp
  ultimately have "rev x = rev y" using e by simp
  then have "x = y" by simp
  then show ?thesis using assms(1) by simp
qed

lemma eventKey_inj:
  assumes "''phone:auth:'' @ r1 @ '':'' @ t1 = ''phone:auth:'' @ r2 @ '':'' @ t2"
    and "CHR '':'' \<notin> set t1" and "CHR '':'' \<notin> set t2"
  shows "r1 = r2 \<and> t1 = t2"
proof -
  have "r1 @ CHR '':'' # t1 = r2 @ CHR '':'' # t2" using assms(1) by simp
  then show ?thesis using assms(2,3) by (rule split_at_last)
qed

subsection \<open>The invariant of a verification request\<close>

lemma start_inv: "verification_inv (start_verification key)"
  by (simp add: verification_inv_def start_verification_def)

lemma receive_inv:
  assumes "verification_inv v"
  shows "verification_inv (receive v e)"
proof (cases "filter (\<lambda>p. private_topic (verification_key v) p = fst e) (subscribed v)")
  case Nil
  then show ?thesis using assms by (simp add: receive_def)
next
  case (Cons p ps)
  then have "p \<in> set (filter (\<lambda>p. private_topic (verification_key v) p = fst e) (subscribed v))"
    by simp
  then have p: "p \<in> set (subscribed v)" by simp
  then have ne: "subscribed v \<noteq> []" by auto
  have fresh: "p \<notin> fst ` set (delivered v)" using assms p by (simp add: verification_inv_def)
  have noterm: "filter terminal (map fst (delivered v)) = []"
    using assms ne by (simp add: verification_inv_def)
  have d: "distinct (map fst (delivered v))" using assms by (simp add: verification_inv_def)
  have sub: "\<forall>q \<in> set (subscribed v). q \<notin> fst ` set (delivered v)"
    using assms by (simp add: verification_inv_def)
  have r: "receive v e =
      v\<lparr>delivered := delivered v @ [(p, snd e)],
        subscribed := (if terminal p then [] else removeAll p (subscribed v))\<rparr>"
    using Cons by (simp add: receive_def)
  show ?thesis
    unfolding r verification_inv_def using fresh noterm d sub
    by (auto simp: butlast_append)
qed

lemma observe_inv: "verification_inv v \<Longrightarrow> verification_inv (observe v trace)"
  unfolding observe_def by (induction trace arbitrary: v) (simp_all add: receive_inv)

lemma distinct_count_le: "distinct xs \<Longrightarrow> length (filter (\<lambda>y. y = x) xs) \<le> Suc 0"
  by (induction xs) (auto simp: filter_empty_conv)

lemma terminal_last_once:
  assumes "filter terminal (butlast xs) = []"
  shows "length (filter terminal xs) \<le> Suc 0"
proof (cases xs rule: rev_cases)
  case Nil
  then show ?thesis by simp
next
  case (snoc ys y)
  then show ?thesis using assms by simp
qed

section \<open>The claims\<close>

text \<open>
  Claim C1. For every sequence of \<open>auth_state_changed\<close> and \<open>auth_id_token_changed\<close>
  notifications, however the two channels interleave, the current user after the whole
  sequence is the wrapper around the raw user of the last notification, or absent when
  that notification carries no user. A notification is processed by the listener the
  constructor registered for it.
\<close>

theorem C1_current_user_is_last_payload:
  "ns \<noteq> [] \<Longrightarrow>
     currentUser (notify_all g ns s) = map_option User (state_user (raw_payload (last ns)))"
proof (cases ns rule: rev_cases)
  case Nil
  assume "ns \<noteq> []"
  with Nil show ?thesis by simp
next
  case (snoc ms n)
  then show ?thesis by (simp add: notify_all_def currentUser_def notify_user)
qed

text \<open>The theorem at a concrete input.\<close>

theorem C1_witness:
  "currentUser
     (notify_all (app_event_name ''app'')
        [IdTokenChanged \<lparr>state_user = None\<rparr>,
         StateChanged \<lparr>state_user = Some \<lparr>uid = ''u1'', providerData = []\<rparr>\<rparr>,
         IdTokenChanged \<lparr>state_user = Some \<lparr>uid = ''u2'', providerData = []\<rparr>\<rparr>]
        (constructor Map.empty ''app''))
   = Some (User \<lparr>uid = ''u2'', providerData = []\<rparr>)"
  using C1_current_user_is_last_payload
    [of "[IdTokenChanged \<lparr>state_user = None\<rparr>,
         StateChanged \<lparr>state_user = Some \<lparr>uid = ''u1'', providerData = []\<rparr>\<rparr>,
         IdTokenChanged \<lparr>state_user = Some \<lparr>uid = ''u2'', providerData = []\<rparr>\<rparr>]"
        "app_event_name ''app''" "constructor Map.empty ''app''"]
  by simp

text \<open>
  Claim C2. A listener registered with \<open>onAuthStateChanged\<close>, \<open>onIdTokenChanged\<close> or
  \<open>onUserChanged\<close> is called exactly once during the registration, with the current
  snapshot or null, when a result has already arrived (\<open>authResult\<close>), and is not
  called by the registration when none has. In the second case it stays uncalled until
  the first result arrives: after any actions that leave the flag down, the trace of
  calls made since before the registration holds none to this listener. For the last
  part the listener is not also subscribed to a private phone topic, and the app's event
  names do not lie in the \<open>phone:auth:\<close> namespace (\<open>getAppEventName\<close> is a parameter).
\<close>

theorem C2_late_subscriber:
  "reg \<in> {onAuthStateChanged, onIdTokenChanged, onUserChanged} \<Longrightarrow>
     (authResult s \<longrightarrow>
        invoked (snd (reg g l s)) = invoked s @ [(l, Snapshot (currentUser s))])
     \<and> (\<not> authResult s \<longrightarrow> invoked (snd (reg g l s)) = invoked s)
     \<and> (\<not> authResult (run g m acts (snd (reg g l s)))
          \<and> \<not> prefix ''phone:auth:'' (g ''onAuthStateChanged'')
          \<and> \<not> prefix ''phone:auth:'' (g ''onIdTokenChanged'')
          \<and> \<not> prefix ''phone:auth:'' (g ''onUserChanged'')
          \<and> (\<forall>t. prefix ''phone:auth:'' t \<longrightarrow> l \<notin> set (listeners s t))
        \<longrightarrow> (\<forall>p. (l, p) \<notin> set (drop (length (invoked s))
                     (invoked (run g m acts (snd (reg g l s)))))))"
proof (intro conjI impI allI)
  assume reg: "reg \<in> {onAuthStateChanged, onIdTokenChanged, onUserChanged}"
  {
    assume "authResult s"
    then show "invoked (snd (reg g l s)) = invoked s @ [(l, Snapshot (currentUser s))]"
      using register_invoked(1)[OF reg, of g l s] by (simp add: currentUser_def)
  }
  {
    assume "\<not> authResult s"
    then show "invoked (snd (reg g l s)) = invoked s"
      using register_invoked(1)[OF reg, of g l s] by simp
  }
  {
    fix p
    let ?s1 = "snd (reg g l s)"
    assume h: "\<not> authResult (run g m acts ?s1)
          \<and> \<not> prefix ''phone:auth:'' (g ''onAuthStateChanged'')
          \<and> \<not> prefix ''phone:auth:'' (g ''onIdTokenChanged'')
          \<and> \<not> prefix ''phone:auth:'' (g ''onUserChanged'')
          \<and> (\<forall>t. prefix ''phone:auth:'' t \<longrightarrow> l \<notin> set (listeners s t))"
    then have late: "\<not> authResult (run g m acts ?s1)"
      and ga: "\<not> prefix ''phone:auth:'' (g ''onAuthStateChanged'')"
      and gi: "\<not> prefix ''phone:auth:'' (g ''onIdTokenChanged'')"
      and gu: "\<not> prefix ''phone:auth:'' (g ''onUserChanged'')"
      and away: "\<forall>t. prefix ''phone:auth:'' t \<longrightarrow> l \<notin> set (listeners s t)"
      by blast+
    have "\<not> authResult ?s1" using late run_authResult_mono[of ?s1 g m acts] by blast
    then have "\<not> authResult s" using register_invoked(2)[OF reg, of g l s] by simp
    then have same: "invoked ?s1 = invoked s" using register_invoked(1)[OF reg, of g l s] by simp
    have away': "\<forall>t. prefix ''phone:auth:'' t \<longrightarrow> l \<notin> set (listeners ?s1 t)"
      using away register_listeners_phone[OF reg ga gi gu, of _ l s] by simp
    obtain news where news: "invoked (run g m acts ?s1) = invoked ?s1 @ news" "l \<notin> fst ` set news"
      using run_quiet[OF late ga gi gu away'] by blast
    have "drop (length (invoked s)) (invoked (run g m acts ?s1)) = news"
      using news(1) same by simp
    then show "(l, p) \<notin> set (drop (length (invoked s)) (invoked (run g m acts ?s1)))"
      using news(2) by force
  }
qed

text \<open>The theorem at a concrete input.\<close>

theorem C2_witness:
  "authResult (notify (app_event_name ''app'')
      (StateChanged \<lparr>state_user = Some \<lparr>uid = ''u1'', providerData = []\<rparr>\<rparr>)
      (constructor Map.empty ''app''))
   \<and> invoked (snd (onAuthStateChanged (app_event_name ''app'') 7
         (notify (app_event_name ''app'')
            (StateChanged \<lparr>state_user = Some \<lparr>uid = ''u1'', providerData = []\<rparr>\<rparr>)
            (constructor Map.empty ''app''))))
       = [(7, Snapshot (Some (User \<lparr>uid = ''u1'', providerData = []\<rparr>)))]
   \<and> \<not> authResult (constructor Map.empty ''app'')
   \<and> invoked (snd (onUserChanged (app_event_name ''app'') 7 (constructor Map.empty ''app''))) = []
   \<and> \<not> authResult (run (app_event_name ''app'') unsupported_message
         [PhoneAuthStateChanged \<lparr>requestKey = ''rk1'', event_type = ''codeSent'', event_state = []\<rparr>,
          SignOut (Inl \<lparr>error_code = ''auth/network-request-failed'', error_message = ''offline''\<rparr>),
          OnIdTokenChanged 8, GetRedirectResult, UnsubscribeIdTokenChanged 8]
         (snd (onUserChanged (app_event_name ''app'') 7 (constructor Map.empty ''app''))))
   \<and> (\<forall>p. (7, p) \<notin> set (drop (length (invoked (constructor Map.empty ''app'')))
         (invoked (run (app_event_name ''app'') unsupported_message
           [PhoneAuthStateChanged \<lparr>requestKey = ''rk1'', event_type = ''codeSent'', event_state = []\<rparr>,
            SignOut (Inl \<lparr>error_code = ''auth/network-request-failed'', error_message = ''offline''\<rparr>),
            OnIdTokenChanged 8, GetRedirectResult, UnsubscribeIdTokenChanged 8]
           (snd (onUserChanged (app_event_name ''app'') 7 (constructor Map.empty ''app'')))))))"
proof -
  let ?g = "app_event_name ''app''"
  let ?s0 = "constructor Map.empty ''app''"
  let ?s1 = "notify ?g (StateChanged \<lparr>state_user = Some \<lparr>uid = ''u1'', providerData = []\<rparr>\<rparr>) ?s0"
  let ?acts = "[PhoneAuthStateChanged \<lparr>requestKey = ''rk1'', event_type = ''codeSent'', event_state = []\<rparr>,
          SignOut (Inl \<lparr>error_code = ''auth/network-request-failed'', error_message = ''offline''\<rparr>),
          OnIdTokenChanged 8, GetRedirectResult, UnsubscribeIdTokenChanged 8]"
  have ra: "onAuthStateChanged \<in> {onAuthStateChanged, onIdTokenChanged, onUserChanged}" by simp
  have ru: "onUserChanged \<in> {onAuthStateChanged, onIdTokenChanged, onUserChanged}" by simp
  have f1: "authResult ?s1" by (rule notify_authResult)
  have i1: "invoked ?s1 = []" and c1: "currentUser ?s1 = Some (User \<lparr>uid = ''u1'', providerData = []\<rparr>)"
    by (simp_all add: notify_defs setUser_eq emit_eq constructor_def currentUser_def)
  have f0: "\<not> authResult ?s0" and i0: "invoked ?s0 = []" by (simp_all add: constructor_def)
  have late: "\<not> authResult (run ?g unsupported_message ?acts (snd (onUserChanged ?g 7 ?s0)))"
    by (simp add: run_def phone_frame register_defs provider_defs passive_defs
          then_promise_Inl constructor_def)
  have g: "\<not> prefix ''phone:auth:'' (?g ''onAuthStateChanged'')"
    "\<not> prefix ''phone:auth:'' (?g ''onIdTokenChanged'')"
    "\<not> prefix ''phone:auth:'' (?g ''onUserChanged'')"
    by (simp_all add: app_event_name_def)
  have away: "\<forall>t. prefix ''phone:auth:'' t \<longrightarrow> 7 \<notin> set (listeners ?s0 t)"
    by (simp add: constructor_def)
  have a: "invoked (snd (onAuthStateChanged ?g 7 ?s1)) = invoked ?s1 @ [(7, Snapshot (currentUser ?s1))]"
    using C2_late_subscriber[OF ra, of ?s1 ?g 7 unsupported_message "[]"] f1 by blast
  have b: "invoked (snd (onUserChanged ?g 7 ?s0)) = invoked ?s0"
    using C2_late_subscriber[OF ru, of ?s0 ?g 7 unsupported_message "[]"] f0 by blast
  have c: "\<forall>p. (7, p) \<notin> set (drop (length (invoked ?s0))
      (invoked (run ?g unsupported_message ?acts (snd (onUserChanged ?g 7 ?s0)))))"
    using C2_late_subscriber[OF ru, of ?s0 ?g 7 unsupported_message ?acts] late g away by blast
  show ?thesis using f1 a b c f0 late unfolding i1 c1 i0 by simp
qed

text \<open>
  Claim C3, as the code has it. A phone event with request key \<open>R1\<close> and type \<open>T\<close> is
  published once, on the topic \<open>phone:auth:R1:T\<close>, and exactly the listeners of that
  topic are called with the event's state. For a request key \<open>R2\<close> other than \<open>R1\<close>, a
  listener subscribed only to private topics of \<open>R2\<close> is not called, the phase types
  being free of colons (as every phase name is).
\<close>

theorem C3_private_topic_of_the_code:
  "emitted (phone_auth_state_changed event s) =
     emitted s @ [(''phone:auth:'' @ requestKey event @ '':'' @ event_type event,
                   PhaseState (event_state event))]
   \<and> invoked (phone_auth_state_changed event s) =
     invoked s @ map (\<lambda>l. (l, PhaseState (event_state event)))
       (listeners s (''phone:auth:'' @ requestKey event @ '':'' @ event_type event))
   \<and> (requestKey event \<noteq> R2 \<and> CHR '':'' \<notin> set (event_type event)
        \<and> (\<forall>t. l \<in> set (listeners s t) \<longrightarrow>
              (\<exists>ty. CHR '':'' \<notin> set ty \<and> t = ''phone:auth:'' @ R2 @ '':'' @ ty))
      \<longrightarrow> (\<forall>p. (l, p) \<notin> set (drop (length (invoked s))
                   (invoked (phone_auth_state_changed event s)))))"
proof (intro conjI impI allI)
  show "emitted (phone_auth_state_changed event s) =
     emitted s @ [(''phone:auth:'' @ requestKey event @ '':'' @ event_type event,
                   PhaseState (event_state event))]"
    by (rule phone_emitted)
  show "invoked (phone_auth_state_changed event s) =
     invoked s @ map (\<lambda>l. (l, PhaseState (event_state event)))
       (listeners s (''phone:auth:'' @ requestKey event @ '':'' @ event_type event))"
    by (rule phone_invoked)
next
  fix p
  let ?k = "''phone:auth:'' @ requestKey event @ '':'' @ event_type event"
  assume h: "requestKey event \<noteq> R2 \<and> CHR '':'' \<notin> set (event_type event)
        \<and> (\<forall>t. l \<in> set (listeners s t) \<longrightarrow>
              (\<exists>ty. CHR '':'' \<notin> set ty \<and> t = ''phone:auth:'' @ R2 @ '':'' @ ty))"
  then have h1: "requestKey event \<noteq> R2" and h2: "CHR '':'' \<notin> set (event_type event)"
    and h3: "\<forall>t. l \<in> set (listeners s t) \<longrightarrow>
              (\<exists>ty. CHR '':'' \<notin> set ty \<and> t = ''phone:auth:'' @ R2 @ '':'' @ ty)"
    by blast+
  have "l \<notin> set (listeners s ?k)"
  proof
    assume "l \<in> set (listeners s ?k)"
    then obtain ty where ty: "CHR '':'' \<notin> set ty" and eq: "?k = ''phone:auth:'' @ R2 @ '':'' @ ty"
      using h3 by blast
    have "requestKey event = R2 \<and> event_type event = ty"
      using eq h2 ty by (rule eventKey_inj)
    then show False using h1 by simp
  qed
  then have "(l, p) \<notin> set (map (\<lambda>l. (l, PhaseState (event_state event))) (listeners s ?k))"
    by auto
  moreover have "drop (length (invoked s)) (invoked (phone_auth_state_changed event s)) =
      map (\<lambda>l. (l, PhaseState (event_state event))) (listeners s ?k)"
    using phone_invoked by (rule drop_old)
  ultimately show "(l, p) \<notin> set (drop (length (invoked s)) (invoked (phone_auth_state_changed event s)))"
    by simp
qed

text \<open>
  An event of request \<open>rk1\<close> reaches the listener of \<open>rk1\<close> and not the one of \<open>rk2\<close>.
\<close>

theorem C3_witness:
  "invoked (phone_auth_state_changed
       \<lparr>requestKey = ''rk1'', event_type = ''codeSent'', event_state = [(''verificationId'', ''v1'')]\<rparr>
       (addListener ''phone:auth:rk1:codeSent'' 8
         (addListener ''phone:auth:rk2:codeSent'' 7 (constructor Map.empty ''app''))))
     = [(8, PhaseState [(''verificationId'', ''v1'')])]
   \<and> (\<forall>p. (7, p) \<notin> set (drop (length (invoked
         (addListener ''phone:auth:rk1:codeSent'' 8
           (addListener ''phone:auth:rk2:codeSent'' 7 (constructor Map.empty ''app'')))))
       (invoked (phone_auth_state_changed
         \<lparr>requestKey = ''rk1'', event_type = ''codeSent'', event_state = [(''verificationId'', ''v1'')]\<rparr>
         (addListener ''phone:auth:rk1:codeSent'' 8
           (addListener ''phone:auth:rk2:codeSent'' 7 (constructor Map.empty ''app'')))))))"
proof -
  let ?s = "addListener ''phone:auth:rk1:codeSent'' 8
         (addListener ''phone:auth:rk2:codeSent'' 7 (constructor Map.empty ''app''))"
  let ?e = "\<lparr>requestKey = ''rk1'', event_type = ''codeSent'',
             event_state = [(''verificationId'', ''v1'')]\<rparr>"
  note T = C3_private_topic_of_the_code[of ?e ?s "''rk2''" 7]
  have l: "listeners ?s = ((\<lambda>t. [])(''phone:auth:rk2:codeSent'' := [7]))(''phone:auth:rk1:codeSent'' := [8])"
    by (simp add: addListener_def constructor_def)
  have i: "invoked ?s = []" by (simp add: addListener_def constructor_def)
  have only: "\<forall>t. 7 \<in> set (listeners ?s t) \<longrightarrow>
      (\<exists>ty. CHR '':'' \<notin> set ty \<and> t = ''phone:auth:'' @ ''rk2'' @ '':'' @ ty)"
  proof (intro allI impI)
    fix t
    assume "7 \<in> set (listeners ?s t)"
    then have "t = ''phone:auth:rk2:codeSent''" unfolding l by (simp split: if_splits)
    then have "CHR '':'' \<notin> set ''codeSent'' \<and> t = ''phone:auth:'' @ ''rk2'' @ '':'' @ ''codeSent''"
      by simp
    then show "\<exists>ty. CHR '':'' \<notin> set ty \<and> t = ''phone:auth:'' @ ''rk2'' @ '':'' @ ty" by (rule exI)
  qed
  have k: "requestKey ?e \<noteq> ''rk2''" "CHR '':'' \<notin> set (event_type ?e)" by simp_all
  have a: "invoked (phone_auth_state_changed ?e ?s) =
      invoked ?s @ map (\<lambda>l. (l, PhaseState (event_state ?e)))
        (listeners ?s (''phone:auth:'' @ requestKey ?e @ '':'' @ event_type ?e))"
    using T by blast
  have b: "\<forall>p. (7, p) \<notin> set (drop (length (invoked ?s)) (invoked (phone_auth_state_changed ?e ?s)))"
    using T k only by blast
  have "invoked (phone_auth_state_changed ?e ?s) = [(8, PhaseState [(''verificationId'', ''v1'')])]"
    unfolding a i l by simp
  then show ?thesis using b by blast
qed

text \<open>
  The claim names the topic \<open>"phone-auth:" + requestKey + ":" + phase\<close>. The code does not
  publish there: a listener on that topic is not called, and the one publication is on
  \<open>phone:auth:rk1:codeSent\<close>.
\<close>

theorem C3_counterexample:
  "emitted (phone_auth_state_changed
       \<lparr>requestKey = ''rk1'', event_type = ''codeSent'', event_state = []\<rparr>
       (addListener (spec_private_topic ''rk1'' ''codeSent'') 7 (constructor Map.empty ''app'')))
     \<noteq> [(spec_private_topic ''rk1'' ''codeSent'', PhaseState [])]
   \<and> emitted (phone_auth_state_changed
       \<lparr>requestKey = ''rk1'', event_type = ''codeSent'', event_state = []\<rparr>
       (addListener (spec_private_topic ''rk1'' ''codeSent'') 7 (constructor Map.empty ''app'')))
     = [(''phone:auth:rk1:codeSent'', PhaseState [])]
   \<and> invoked (phone_auth_state_changed
       \<lparr>requestKey = ''rk1'', event_type = ''codeSent'', event_state = []\<rparr>
       (addListener (spec_private_topic ''rk1'' ''codeSent'') 7 (constructor Map.empty ''app''))) = []"
  by (simp add: phone_emitted phone_invoked addListener_def constructor_def spec_private_topic_def)

text \<open>
  Claim C4. For every request key and everything the module publishes while any actions
  run, the notifications handed to the listeners of that request hold at most one
  terminal phase (auto-verified or error), no terminal phase before the last place, and
  at most one code-sent and one timeout. The handler of index.js republishes every native
  event as it comes; the discipline is that of the request, modelled from the spec.
\<close>

theorem C4_one_terminal_phase_and_last:
  "length (filter terminal (map fst (delivered (observe (start_verification key)
       (drop (length (emitted s)) (emitted (run g m acts s))))))) \<le> 1
   \<and> filter terminal (butlast (map fst (delivered (observe (start_verification key)
       (drop (length (emitted s)) (emitted (run g m acts s))))))) = []
   \<and> length (filter (\<lambda>p. p = CodeSent) (map fst (delivered (observe (start_verification key)
       (drop (length (emitted s)) (emitted (run g m acts s))))))) \<le> 1
   \<and> length (filter (\<lambda>p. p = AutoVerifyTimeout) (map fst (delivered (observe (start_verification key)
       (drop (length (emitted s)) (emitted (run g m acts s))))))) \<le> 1"
proof -
  let ?v = "observe (start_verification key) (drop (length (emitted s)) (emitted (run g m acts s)))"
  have inv: "verification_inv ?v" by (rule observe_inv[OF start_inv])
  then have d: "distinct (map fst (delivered ?v))"
    and t: "filter terminal (butlast (map fst (delivered ?v))) = []"
    by (simp_all add: verification_inv_def)
  show ?thesis using t terminal_last_once[OF t] distinct_count_le[OF d] by simp
qed

text \<open>
  Two code-sent events and both terminal events arrive for \<open>rk1\<close>: the request's listeners
  see the first code-sent and the auto-verified phase, and nothing after it.
\<close>

theorem C4_witness:
  "map fst (delivered (observe (start_verification ''rk1'')
       (drop (length (emitted (constructor Map.empty ''app'')))
         (emitted (run (app_event_name ''app'') unsupported_message
           [PhoneAuthStateChanged \<lparr>requestKey = ''rk1'', event_type = ''codeSent'', event_state = []\<rparr>,
            PhoneAuthStateChanged \<lparr>requestKey = ''rk2'', event_type = ''error'', event_state = []\<rparr>,
            PhoneAuthStateChanged \<lparr>requestKey = ''rk1'', event_type = ''codeSent'', event_state = []\<rparr>,
            PhoneAuthStateChanged \<lparr>requestKey = ''rk1'', event_type = ''autoVerified'', event_state = []\<rparr>,
            PhoneAuthStateChanged \<lparr>requestKey = ''rk1'', event_type = ''error'', event_state = []\<rparr>]
           (constructor Map.empty ''app''))))))
     = [CodeSent, AutoVerified]
   \<and> length (filter terminal (map fst (delivered (observe (start_verification ''rk1'')
       (drop (length (emitted (constructor Map.empty ''app'')))
         (emitted (run (app_event_name ''app'') unsupported_message
           [PhoneAuthStateChanged \<lparr>requestKey = ''rk1'', event_type = ''codeSent'', event_state = []\<rparr>,
            PhoneAuthStateChanged \<lparr>requestKey = ''rk2'', event_type = ''error'', event_state = []\<rparr>,
            PhoneAuthStateChanged \<lparr>requestKey = ''rk1'', event_type = ''codeSent'', event_state = []\<rparr>,
            PhoneAuthStateChanged \<lparr>requestKey = ''rk1'', event_type = ''autoVerified'', event_state = []\<rparr>,
            PhoneAuthStateChanged \<lparr>requestKey = ''rk1'', event_type = ''error'', event_state = []\<rparr>]
           (constructor Map.empty ''app'')))))))) \<le> 1"
proof -
  let ?acts = "[PhoneAuthStateChanged \<lparr>requestKey = ''rk1'', event_type = ''codeSent'', event_state = []\<rparr>,
            PhoneAuthStateChanged \<lparr>requestKey = ''rk2'', event_type = ''error'', event_state = []\<rparr>,
            PhoneAuthStateChanged \<lparr>requestKey = ''rk1'', event_type = ''codeSent'', event_state = []\<rparr>,
            PhoneAuthStateChanged \<lparr>requestKey = ''rk1'', event_type = ''autoVerified'', event_state = []\<rparr>,
            PhoneAuthStateChanged \<lparr>requestKey = ''rk1'', event_type = ''error'', event_state = []\<rparr>]"
  let ?s0 = "constructor Map.empty ''app''"
  have e: "drop (length (emitted ?s0)) (emitted (run (app_event_name ''app'') unsupported_message ?acts ?s0))
      = [(''phone:auth:rk1:codeSent'', PhaseState []), (''phone:auth:rk2:error'', PhaseState []),
         (''phone:auth:rk1:codeSent'', PhaseState []), (''phone:auth:rk1:autoVerified'', PhaseState []),
         (''phone:auth:rk1:error'', PhaseState [])]"
    by (simp add: run_def phone_emitted phone_frame constructor_def)
  have "map fst (delivered (observe (start_verification ''rk1'')
      (drop (length (emitted ?s0)) (emitted (run (app_event_name ''app'') unsupported_message ?acts ?s0)))))
      = [CodeSent, AutoVerified]"
    unfolding e
    by (simp add: observe_def receive_def start_verification_def private_topic_def eventKey_def)
  then show ?thesis
    using C4_one_terminal_phase_and_last[of "''rk1''" ?s0 "app_event_name ''app''" unsupported_message ?acts]
    by blast
qed

text \<open>
  Claim C5. When the provider call of \<open>signOut\<close> or of an operation of the sign-in and
  sign-up family rejects, the operation rejects with the same reason and the state is the
  one before: the same snapshot, the same flag, nothing published and no listener called.
\<close>

theorem C5_rejection_changes_nothing:
  "signOut g (Inl e) s = (Inl e, s)
   \<and> signInAnonymously g (Inl e) s = (Inl e, s)
   \<and> signInAnonymouslyAndRetrieveData g (Inl e) s = (Inl e, s)
   \<and> createUserWithEmailAndPassword g (Inl e) s = (Inl e, s)
   \<and> createUserAndRetrieveDataWithEmailAndPassword g (Inl e) s = (Inl e, s)
   \<and> signInWithEmailAndPassword g (Inl e) s = (Inl e, s)
   \<and> signInAndRetrieveDataWithEmailAndPassword g (Inl e) s = (Inl e, s)
   \<and> signInWithCustomToken g (Inl e) s = (Inl e, s)
   \<and> signInAndRetrieveDataWithCustomToken g (Inl e) s = (Inl e, s)
   \<and> signInWithCredential g (Inl e) s = (Inl e, s)
   \<and> signInAndRetrieveDataWithCredential g (Inl e) s = (Inl e, s)
   \<and> signInWithPhoneNumber (Inl e) s = (Inl e, s)"
  by (simp add: provider_defs then_promise_Inl)

text \<open>The theorem at a concrete input.\<close>

theorem C5_witness:
  "signOut (app_event_name ''app'')
      (Inl \<lparr>error_code = ''auth/network-request-failed'', error_message = ''offline''\<rparr>)
      (notify (app_event_name ''app'')
        (StateChanged \<lparr>state_user = Some \<lparr>uid = ''u1'', providerData = []\<rparr>\<rparr>)
        (constructor Map.empty ''app''))
    = (Inl \<lparr>error_code = ''auth/network-request-failed'', error_message = ''offline''\<rparr>,
       notify (app_event_name ''app'')
        (StateChanged \<lparr>state_user = Some \<lparr>uid = ''u1'', providerData = []\<rparr>\<rparr>)
        (constructor Map.empty ''app''))
   \<and> signInAndRetrieveDataWithEmailAndPassword (app_event_name ''app'')
      (Inl \<lparr>error_code = ''auth/wrong-password'', error_message = ''wrong''\<rparr>)
      (constructor Map.empty ''app'')
    = (Inl \<lparr>error_code = ''auth/wrong-password'', error_message = ''wrong''\<rparr>,
       constructor Map.empty ''app'')"
  using C5_rejection_changes_nothing
      [of "app_event_name ''app''"
          "\<lparr>error_code = ''auth/network-request-failed'', error_message = ''offline''\<rparr>"
          "notify (app_event_name ''app'')
            (StateChanged \<lparr>state_user = Some \<lparr>uid = ''u1'', providerData = []\<rparr>\<rparr>)
            (constructor Map.empty ''app'')"]
    C5_rejection_changes_nothing
      [of "app_event_name ''app''"
          "\<lparr>error_code = ''auth/wrong-password'', error_message = ''wrong''\<rparr>"
          "constructor Map.empty ''app''"]
  by blast

text \<open>
  Claim C6. Each of \<open>getRedirectResult\<close>, \<open>setPersistence\<close>, \<open>signInWithPopup\<close>,
  \<open>signInWithRedirect\<close> and \<open>useDeviceLanguage\<close> throws, in every state, the error whose
  message the table of unsupported-method messages gives for \<open>auth\<close> and the method's
  name, and leaves the state as it was.
\<close>

theorem C6_unsupported_methods_throw:
  "getRedirectResult m s = (Inl (Error (m ''auth'' ''getRedirectResult'')), s)
   \<and> setPersistence m s = (Inl (Error (m ''auth'' ''setPersistence'')), s)
   \<and> signInWithPopup m s = (Inl (Error (m ''auth'' ''signInWithPopup'')), s)
   \<and> signInWithRedirect m s = (Inl (Error (m ''auth'' ''signInWithRedirect'')), s)
   \<and> useDeviceLanguage m s = (Inl (Error (m ''auth'' ''useDeviceLanguage'')), s)"
  by (simp add: getRedirectResult_def setPersistence_def signInWithPopup_def
        signInWithRedirect_def useDeviceLanguage_def)

text \<open>The theorem at a concrete input.\<close>

theorem C6_witness:
  "getRedirectResult unsupported_message (constructor Map.empty ''app'')
     = (Inl (Error ''auth.getRedirectResult is unsupported''), constructor Map.empty ''app'')
   \<and> signInWithPopup unsupported_message (constructor Map.empty ''app'')
     = (Inl (Error ''auth.signInWithPopup is unsupported''), constructor Map.empty ''app'')"
  using C6_unsupported_methods_throw[of unsupported_message "constructor Map.empty ''app''"]
  by (simp add: unsupported_message_def)

text \<open>
  Claim C7. The flag \<open>authResult\<close> is false after the constructor, and once it is true no
  action and no sequence of actions makes it false again.
\<close>

theorem C7_authResult_monotone:
  "\<not> authResult (constructor APP_LANGUAGE name)
   \<and> (authResult s \<longrightarrow> authResult (exec g m a s))
   \<and> (authResult s \<longrightarrow> authResult (run g m acts s))"
  by (simp add: constructor_def exec_authResult_mono run_authResult_mono)

text \<open>The theorem at a concrete input.\<close>

theorem C7_witness:
  "authResult (notify (app_event_name ''app'') (IdTokenChanged \<lparr>state_user = None\<rparr>)
      (constructor Map.empty ''app''))
   \<and> authResult (run (app_event_name ''app'') unsupported_message
        [SignOut (Inr ()),
         SignInWithCustomToken (Inl \<lparr>error_code = ''auth/invalid-custom-token'', error_message = ''bad''\<rparr>),
         PhoneAuthStateChanged \<lparr>requestKey = ''rk1'', event_type = ''error'', event_state = []\<rparr>,
         UnsubscribeUserChanged 7, SetPersistence, SetLanguageCode ''fr'']
        (notify (app_event_name ''app'') (IdTokenChanged \<lparr>state_user = None\<rparr>)
          (constructor Map.empty ''app'')))"
proof -
  have f: "authResult (notify (app_event_name ''app'') (IdTokenChanged \<lparr>state_user = None\<rparr>)
      (constructor Map.empty ''app''))"
    by (simp add: notify_defs setUser_eq emit_eq)
  show ?thesis
    using f C7_authResult_monotone
      [of Map.empty "''app''"
          "notify (app_event_name ''app'') (IdTokenChanged \<lparr>state_user = None\<rparr>)
            (constructor Map.empty ''app'')"
          "app_event_name ''app''" unsupported_message "SignOut (Inr ())"
          "[SignOut (Inr ()),
            SignInWithCustomToken (Inl \<lparr>error_code = ''auth/invalid-custom-token'', error_message = ''bad''\<rparr>),
            PhoneAuthStateChanged \<lparr>requestKey = ''rk1'', event_type = ''error'', event_state = []\<rparr>,
            UnsubscribeUserChanged 7, SetPersistence, SetLanguageCode ''fr'']"]
    by blast
qed

text \<open>
  Claim C8. When \<open>createUserAndRetrieveDataWithEmailAndPassword\<close> resolves with a raw
  credential whose user has uid \<open>u1\<close>, the result's user has uid \<open>u1\<close>, the current user
  is that same snapshot, and exactly one publication is added, on the topic of
  \<open>onUserChanged\<close>, carrying that snapshot to each listener of the topic once.
\<close>

theorem C8_create_user_and_retrieve_data:
  "uid (native_user userCredential) = ''u1'' \<Longrightarrow>
     (case createUserAndRetrieveDataWithEmailAndPassword g (Inr userCredential) s of
        (Inl e, s') \<Rightarrow> False
      | (Inr result, s') \<Rightarrow>
          user_uid (user result) = ''u1''
          \<and> currentUser s' = Some (user result)
          \<and> map_option user_uid (currentUser s') = Some ''u1''
          \<and> authResult s'
          \<and> emitted s' = emitted s @ [(g ''onUserChanged'', Snapshot (Some (user result)))]
          \<and> invoked s' = invoked s @
               map (\<lambda>l. (l, Snapshot (Some (user result)))) (listeners s (g ''onUserChanged'')))"
  by (simp add: createUserAndRetrieveDataWithEmailAndPassword_def then_promise_Inr
        setUserCredential_eq user_uid_def currentUser_def)

text \<open>The theorem at a concrete input.\<close>

theorem C8_witness:
  "uid (native_user
      \<lparr>native_user = \<lparr>uid = ''u1'', providerData = [''password'']\<rparr>,
       native_additionalUserInfo = Some \<lparr>isNewUser = True, username = None\<rparr>\<rparr>) = ''u1''
   \<and> createUserAndRetrieveDataWithEmailAndPassword (app_event_name ''app'')
       (Inr \<lparr>native_user = \<lparr>uid = ''u1'', providerData = [''password'']\<rparr>,
             native_additionalUserInfo = Some \<lparr>isNewUser = True, username = None\<rparr>\<rparr>)
       (snd (onUserChanged (app_event_name ''app'') 7 (constructor Map.empty ''app'')))
     = (Inr \<lparr>additionalUserInfo = Some \<lparr>isNewUser = True, username = None\<rparr>,
             user = User \<lparr>uid = ''u1'', providerData = [''password'']\<rparr>\<rparr>,
        (snd (onUserChanged (app_event_name ''app'') 7 (constructor Map.empty ''app'')))
          \<lparr>authResult := True,
            auth_user := Some (User \<lparr>uid = ''u1'', providerData = [''password'']\<rparr>),
            emitted := [(''app-onUserChanged'',
               Snapshot (Some (User \<lparr>uid = ''u1'', providerData = [''password'']\<rparr>)))],
            invoked := [(7, Snapshot (Some (User \<lparr>uid = ''u1'', providerData = [''password'']\<rparr>)))]\<rparr>)"
proof -
  let ?c = "\<lparr>native_user = \<lparr>uid = ''u1'', providerData = [''password'']\<rparr>,
       native_additionalUserInfo = Some \<lparr>isNewUser = True, username = None\<rparr>\<rparr>"
  let ?s = "snd (onUserChanged (app_event_name ''app'') 7 (constructor Map.empty ''app''))"
  have h: "uid (native_user ?c) = ''u1''" by simp
  note T = C8_create_user_and_retrieve_data[OF h, where g = "app_event_name ''app''" and s = ?s]
  obtain r s' where rs: "createUserAndRetrieveDataWithEmailAndPassword (app_event_name ''app'') (Inr ?c) ?s = (r, s')"
    by (cases "createUserAndRetrieveDataWithEmailAndPassword (app_event_name ''app'') (Inr ?c) ?s")
  then obtain result where r: "r = Inr result" using T by (cases r) simp_all
  have one: "user_uid (user result) = ''u1''" using T rs r by simp
  have "createUserAndRetrieveDataWithEmailAndPassword (app_event_name ''app'') (Inr ?c) ?s
     = (Inr \<lparr>additionalUserInfo = Some \<lparr>isNewUser = True, username = None\<rparr>,
             user = User \<lparr>uid = ''u1'', providerData = [''password'']\<rparr>\<rparr>,
        ?s\<lparr>authResult := True,
            auth_user := Some (User \<lparr>uid = ''u1'', providerData = [''password'']\<rparr>),
            emitted := [(''app-onUserChanged'',
               Snapshot (Some (User \<lparr>uid = ''u1'', providerData = [''password'']\<rparr>)))],
            invoked := [(7, Snapshot (Some (User \<lparr>uid = ''u1'', providerData = [''password'']\<rparr>)))]\<rparr>)"
    by (simp add: createUserAndRetrieveDataWithEmailAndPassword_def then_promise_Inr
          setUserCredential_eq register_defs constructor_def app_event_name_def)
  then show ?thesis using h one by blast
qed

text \<open>
  Claim C9, as the code has it. The closure a registration returns removes, on the
  registration's topic, every entry of the listener function it was registered with, and
  changes nothing else; calling it again right away changes nothing.
\<close>

theorem C9_unsubscribe_removes_by_topic_and_listener:
  "(reg, name) \<in> {(onAuthStateChanged, ''onAuthStateChanged''),
                   (onIdTokenChanged, ''onIdTokenChanged''),
                   (onUserChanged, ''onUserChanged'')} \<Longrightarrow>
     fst (reg g l s) t =
       t\<lparr>listeners := (listeners t)(g name := filter (\<lambda>x. x \<noteq> l) (listeners t (g name)))\<rparr>
     \<and> fst (reg g l s) (fst (reg g l s) t) = fst (reg g l s) t"
  by (auto simp: register_defs Let_def)

text \<open>
  Listeners 7 and 8 are registered; the closure of 7, called twice, leaves 8 alone.
\<close>

theorem C9_witness:
  "listeners
     (fst (onUserChanged (app_event_name ''app'') 7 (constructor Map.empty ''app''))
       (fst (onUserChanged (app_event_name ''app'') 7 (constructor Map.empty ''app''))
         (snd (onUserChanged (app_event_name ''app'') 8
           (snd (onUserChanged (app_event_name ''app'') 7 (constructor Map.empty ''app'')))))))
     ''app-onUserChanged'' = [8]
   \<and> fst (onUserChanged (app_event_name ''app'') 7 (constructor Map.empty ''app''))
       (fst (onUserChanged (app_event_name ''app'') 7 (constructor Map.empty ''app''))
         (snd (onUserChanged (app_event_name ''app'') 8
           (snd (onUserChanged (app_event_name ''app'') 7 (constructor Map.empty ''app''))))))
     = fst (onUserChanged (app_event_name ''app'') 7 (constructor Map.empty ''app''))
         (snd (onUserChanged (app_event_name ''app'') 8
           (snd (onUserChanged (app_event_name ''app'') 7 (constructor Map.empty ''app'')))))"
proof -
  let ?g = "app_event_name ''app''"
  let ?s0 = "constructor Map.empty ''app''"
  let ?t = "snd (onUserChanged ?g 8 (snd (onUserChanged ?g 7 ?s0)))"
  have m: "(onUserChanged, ''onUserChanged'') \<in> {(onAuthStateChanged, ''onAuthStateChanged''),
                   (onIdTokenChanged, ''onIdTokenChanged''),
                   (onUserChanged, ''onUserChanged'')}" by simp
  note T = C9_unsubscribe_removes_by_topic_and_listener[OF m, of ?g 7 ?s0 ?t]
  have idem: "fst (onUserChanged ?g 7 ?s0) (fst (onUserChanged ?g 7 ?s0) ?t) = fst (onUserChanged ?g 7 ?s0) ?t"
    using T by blast
  have "listeners (fst (onUserChanged ?g 7 ?s0) ?t) ''app-onUserChanged'' = [8]"
    by (simp add: register_defs constructor_def app_event_name_def)
  then show ?thesis using idem by simp
qed

text \<open>
  The claim asks that a repeated call leave another registration of the same listener
  function on the same topic alone. Listener 7 is registered and its closure called; 7 is
  registered again; the first closure is called once more, and the second registration is
  gone.
\<close>

theorem C9_counterexample:
  "listeners
     (snd (onUserChanged (app_event_name ''app'') 7
       (fst (onUserChanged (app_event_name ''app'') 7 (constructor Map.empty ''app''))
         (snd (onUserChanged (app_event_name ''app'') 7 (constructor Map.empty ''app''))))))
     (app_event_name ''app'' ''onUserChanged'') = [7]
   \<and> listeners
     (fst (onUserChanged (app_event_name ''app'') 7 (constructor Map.empty ''app''))
       (snd (onUserChanged (app_event_name ''app'') 7
         (fst (onUserChanged (app_event_name ''app'') 7 (constructor Map.empty ''app''))
           (snd (onUserChanged (app_event_name ''app'') 7 (constructor Map.empty ''app'')))))))
     (app_event_name ''app'' ''onUserChanged'') = []"
  by (simp add: register_defs constructor_def app_event_name_def)

text \<open>
  Claim C10. Delivering a phone event, whatever its request key and type, leaves the
  current user and the flag as they were and publishes once, on the event's private
  topic; nothing is published on the topics of \<open>onAuthStateChanged\<close>,
  \<open>onIdTokenChanged\<close> and \<open>onUserChanged\<close>, the app's event names not lying in the
  \<open>phone:auth:\<close> namespace of the private topics (\<open>getAppEventName\<close> is a parameter).
\<close>

theorem C10_phone_event_frame:
  "\<not> prefix ''phone:auth:'' (g ''onAuthStateChanged'') \<Longrightarrow>
   \<not> prefix ''phone:auth:'' (g ''onIdTokenChanged'') \<Longrightarrow>
   \<not> prefix ''phone:auth:'' (g ''onUserChanged'') \<Longrightarrow>
     currentUser (phone_auth_state_changed event s) = currentUser s
     \<and> authResult (phone_auth_state_changed event s) = authResult s
     \<and> emitted (phone_auth_state_changed event s) =
         emitted s @ [(eventKey event, PhaseState (event_state event))]
     \<and> (\<forall>p. (g ''onAuthStateChanged'', p) \<notin>
           set (drop (length (emitted s)) (emitted (phone_auth_state_changed event s))))
     \<and> (\<forall>p. (g ''onIdTokenChanged'', p) \<notin>
           set (drop (length (emitted s)) (emitted (phone_auth_state_changed event s))))
     \<and> (\<forall>p. (g ''onUserChanged'', p) \<notin>
           set (drop (length (emitted s)) (emitted (phone_auth_state_changed event s))))"
proof -
  assume a: "\<not> prefix ''phone:auth:'' (g ''onAuthStateChanged'')"
    and b: "\<not> prefix ''phone:auth:'' (g ''onIdTokenChanged'')"
    and c: "\<not> prefix ''phone:auth:'' (g ''onUserChanged'')"
  have e: "emitted (phone_auth_state_changed event s) =
      emitted s @ [(eventKey event, PhaseState (event_state event))]"
    by (simp add: phone_auth_state_changed_def emit_eq)
  have d: "drop (length (emitted s)) (emitted (phone_auth_state_changed event s)) =
      [(eventKey event, PhaseState (event_state event))]"
    using e by (rule drop_old)
  have "g ''onAuthStateChanged'' \<noteq> eventKey event" "g ''onIdTokenChanged'' \<noteq> eventKey event"
    "g ''onUserChanged'' \<noteq> eventKey event"
    using a b c eventKey_prefix[of event] by auto
  then show ?thesis using e d by (simp add: currentUser_def phone_frame)
qed

text \<open>The theorem at a concrete input.\<close>

theorem C10_witness:
  "currentUser (phone_auth_state_changed
       \<lparr>requestKey = ''rk1'', event_type = ''codeSent'', event_state = []\<rparr>
       (notify (app_event_name ''app'')
         (StateChanged \<lparr>state_user = Some \<lparr>uid = ''u1'', providerData = []\<rparr>\<rparr>)
         (constructor Map.empty ''app'')))
     = Some (User \<lparr>uid = ''u1'', providerData = []\<rparr>)
   \<and> authResult (phone_auth_state_changed
       \<lparr>requestKey = ''rk1'', event_type = ''codeSent'', event_state = []\<rparr>
       (notify (app_event_name ''app'')
         (StateChanged \<lparr>state_user = Some \<lparr>uid = ''u1'', providerData = []\<rparr>\<rparr>)
         (constructor Map.empty ''app'')))
   \<and> drop (length (emitted (notify (app_event_name ''app'')
         (StateChanged \<lparr>state_user = Some \<lparr>uid = ''u1'', providerData = []\<rparr>\<rparr>)
         (constructor Map.empty ''app''))))
       (emitted (phone_auth_state_changed
         \<lparr>requestKey = ''rk1'', event_type = ''codeSent'', event_state = []\<rparr>
         (notify (app_event_name ''app'')
           (StateChanged \<lparr>state_user = Some \<lparr>uid = ''u1'', providerData = []\<rparr>\<rparr>)
           (constructor Map.empty ''app''))))
     = [(''phone:auth:rk1:codeSent'', PhaseState [])]"
proof -
  let ?g = "app_event_name ''app''"
  let ?e = "\<lparr>requestKey = ''rk1'', event_type = ''codeSent'', event_state = []\<rparr>"
  let ?s = "notify ?g (StateChanged \<lparr>state_user = Some \<lparr>uid = ''u1'', providerData = []\<rparr>\<rparr>)
         (constructor Map.empty ''app'')"
  have g: "\<not> prefix ''phone:auth:'' (?g ''onAuthStateChanged'')"
    "\<not> prefix ''phone:auth:'' (?g ''onIdTokenChanged'')"
    "\<not> prefix ''phone:auth:'' (?g ''onUserChanged'')"
    by (simp_all add: app_event_name_def)
  note T = C10_phone_event_frame[OF g, of ?e ?s]
  have c: "currentUser ?s = Some (User \<lparr>uid = ''u1'', providerData = []\<rparr>)"
    by (simp add: currentUser_def notify_defs setUser_eq emit_eq)
  have a: "authResult ?s" by (rule notify_authResult)
  have k: "eventKey ?e = ''phone:auth:rk1:codeSent''" by (simp add: eventKey_def)
  have "emitted (phone_auth_state_changed ?e ?s) = emitted ?s @ [(eventKey ?e, PhaseState (event_state ?e))]"
    using T by blast
  then have "drop (length (emitted ?s)) (emitted (phone_auth_state_changed ?e ?s))
      = [(''phone:auth:rk1:codeSent'', PhaseState [])]"
    unfolding k by simp
  moreover have "currentUser (phone_auth_state_changed ?e ?s) = Some (User \<lparr>uid = ''u1'', providerData = []\<rparr>)"
    using T c by simp
  moreover have "authResult (phone_auth_state_changed ?e ?s)" using T a by simp
  ultimately show ?thesis by blast
qed

end
